theory Spec2Isabelle
  imports Main "HOL-Library.List_Lexorder" "HOL-Library.Char_ord" "HOL-Library.Product_Lexorder"
begin

section \<open>Data model (blog/models.py)\<close>

text \<open>
  Every model class is a record; the class hierarchy is record extension. A foreign key is
  the primary key of the row it points to (\<open>author_id\<close>, \<open>category_id\<close>, \<open>posts_id\<close>),
  a nullable one an \<open>option\<close>. Timestamps are integers (naive \<open>datetime\<close> values, totally
  ordered). Field names shared by two classes are written qualified
  (\<open>Post.title\<close>, \<open>Category.title\<close>, \<open>Comment.author_id\<close>).
\<close>

type_synonym datetime = int

record Model =
  pk :: nat

text \<open>
  Modelled from the spec: \<open>core.models.CommonData\<close> is not among the sources. The spec gives
  every Post, Category and Location a published flag and a creation timestamp; the views
  and the admin read them as \<open>is_published\<close> and \<open>created_at\<close>.
\<close>

record CommonData = Model +
  is_published :: bool
  created_at :: datetime

record User = Model +
  username :: string

record Category = CommonData +
  title :: string
  description :: string
  slug :: string

record Location = CommonData +
  name :: string

record Post = CommonData +
  title :: string
  text_field :: string
  pub_date :: datetime
  author_id :: nat
  location_id :: "nat option"
  category_id :: "nat option"
  image :: string

record Comment = Model +
  text_field :: string
  posts_id :: nat
  created_at :: datetime
  author_id :: nat

text \<open>The database: one list of rows per table, in the order the database scans them.\<close>

record db =
  users :: "User list"
  categories :: "Category list"
  locations :: "Location list"
  posts :: "Post list"
  comments :: "Comment list"

section \<open>Requests and responses\<close>

datatype http_method = GET | POST

text \<open>
  A query-string value as the views read it with \<open>request.GET.get\<close>: missing, a text that
  Python's \<open>int()\<close> accepts (with the integer it denotes), or any other text.
\<close>

datatype query_value = Absent | Text_int int | Text_other string

text \<open>
  \<open>user\<close> is \<open>request.user\<close>: \<open>None\<close> is the AnonymousUser. \<open>blog/forms.py\<close> is not among
  the sources, so a submitted form is what the views get out of it: the model instance the
  bound form holds after validation (\<open>form.instance\<close>), or \<open>None\<close> when validation fails.
\<close>

record request =
  user :: "User option"
  http_method :: http_method
  GET_page :: query_value
  post_form :: "Post option"
  comment_form :: "Comment option"

definition is_authenticated :: "request \<Rightarrow> bool" where
  "is_authenticated request = (user request \<noteq> None)"

datatype url = post_detail nat | profile string | index | login

datatype 'c response =
    TemplateResponse 'c
  | HttpResponseRedirect url
  | Http404
  | ServerError

text \<open>The exceptions a view can leave uncaught: Http404 and MultipleObjectsReturned.\<close>

datatype error = Raise_Http404 | MultipleObjectsReturned

section \<open>The framework: lookups, ordering, pagination\<close>

text \<open>
  \<open>QuerySet.get\<close> wants exactly one row. \<open>get_object_or_404\<close> and \<open>DetailView.get_object\<close>
  raise Http404 when there is none; MultipleObjectsReturned is not caught.
\<close>

definition get_object_or_404 :: "'a list \<Rightarrow> ('a \<Rightarrow> bool) \<Rightarrow> error + 'a" where
  "get_object_or_404 table cond =
     (case filter cond table of
        [] \<Rightarrow> Inl Raise_Http404
      | [x] \<Rightarrow> Inr x
      | _ \<Rightarrow> Inl MultipleObjectsReturned)"

definition error_response :: "error \<Rightarrow> 'c response" where
  "error_response e =
     (case e of Raise_Http404 \<Rightarrow> Http404 | MultipleObjectsReturned \<Rightarrow> ServerError)"

text \<open>\<open>annotate(comment_count=Count('comments'))\<close>: each post with the number of its comments.\<close>

definition comment_count :: "db \<Rightarrow> Post \<Rightarrow> nat" where
  "comment_count d p = length (filter (\<lambda>c. posts_id c = pk p) (comments d))"

definition annotate :: "db \<Rightarrow> Post list \<Rightarrow> (Post \<times> nat) list" where
  "annotate d ps = map (\<lambda>p. (p, comment_count d p)) ps"

text \<open>The join behind \<open>category__...\<close> lookups: the category row a post points to, if any.\<close>

definition category_of :: "db \<Rightarrow> Post \<Rightarrow> Category option" where
  "category_of d p =
     (case category_id p of
        None \<Rightarrow> None
      | Some k \<Rightarrow> find (\<lambda>c. pk c = k) (categories d))"

definition category__is_published :: "db \<Rightarrow> Post \<Rightarrow> bool" where
  "category__is_published d p =
     (case category_of d p of None \<Rightarrow> False | Some c \<Rightarrow> is_published c)"

definition category__slug :: "db \<Rightarrow> Post \<Rightarrow> string \<Rightarrow> bool" where
  "category__slug d p s =
     (case category_of d p of None \<Rightarrow> False | Some c \<Rightarrow> slug c = s)"

text \<open>\<open>ordering = ('-pub_date', 'title',)\<close>: newest first, equal dates by title.\<close>

definition ordering :: "(Post \<times> nat) list \<Rightarrow> (Post \<times> nat) list" where
  "ordering rows = sort_key (\<lambda>(p, n). (- pub_date p, Post.title p)) rows"

definition post_before :: "Post \<Rightarrow> Post \<Rightarrow> bool" where
  "post_before p q =
     (pub_date q < pub_date p \<or> (pub_date p = pub_date q \<and> Post.title p \<le> Post.title q))"

text \<open>
  \<open>Post.Meta.ordering\<close> is the default ordering of a Post queryset that has no \<open>order_by\<close>.
  A queryset annotated with an aggregate is a GROUP BY query. Django releases before 3.1
  apply the default ordering to it; releases since 3.1 do not, and the rows come as the
  database produces them (here: in table order). No source file fixes the release, so it
  is a parameter. (The third value matters for DeleteView only, see below.)
\<close>

datatype django_release = Django_2_or_3_0 | Django_3_1_or_3_2 | Django_4_or_later

definition Meta_ordering :: "django_release \<Rightarrow> (Post \<times> nat) list \<Rightarrow> (Post \<times> nat) list" where
  "Meta_ordering release rows =
     (case release of
        Django_2_or_3_0 \<Rightarrow> ordering rows
      | Django_3_1_or_3_2 \<Rightarrow> rows
      | Django_4_or_later \<Rightarrow> rows)"

text \<open>
  \<open>django.core.paginator.Paginator\<close> with its defaults (no orphans, an empty first page
  allowed).
\<close>

record 'a Page =
  object_list :: "'a list"
  number :: nat

datatype invalid_page = PageNotAnInteger | EmptyPage

definition num_pages :: "'a list \<Rightarrow> nat \<Rightarrow> nat" where
  "num_pages xs per_page = (max 1 (length xs) + per_page - 1) div per_page"

definition validate_number :: "'a list \<Rightarrow> nat \<Rightarrow> query_value \<Rightarrow> invalid_page + nat" where
  "validate_number xs per_page v =
     (case v of
        Absent \<Rightarrow> Inl PageNotAnInteger
      | Text_other s \<Rightarrow> Inl PageNotAnInteger
      | Text_int n \<Rightarrow>
          if n < 1 then Inl EmptyPage
          else if int (num_pages xs per_page) < n then Inl EmptyPage
          else Inr (nat n))"

definition page :: "'a list \<Rightarrow> nat \<Rightarrow> int \<Rightarrow> invalid_page + 'a Page" where
  "page xs per_page n =
     (case validate_number xs per_page (Text_int n) of
        Inl e \<Rightarrow> Inl e
      | Inr k \<Rightarrow>
          (let bottom = (k - 1) * per_page;
               top = bottom + per_page;
               top = (if length xs \<le> top then length xs else top)
           in Inr \<lparr>object_list = take (top - bottom) (drop bottom xs), number = k\<rparr>))"

definition get_page :: "'a list \<Rightarrow> nat \<Rightarrow> query_value \<Rightarrow> invalid_page + 'a Page" where
  "get_page xs per_page v =
     (case validate_number xs per_page v of
        Inl PageNotAnInteger \<Rightarrow> page xs per_page 1
      | Inl EmptyPage \<Rightarrow> page xs per_page (int (num_pages xs per_page))
      | Inr k \<Rightarrow> page xs per_page (int k))"

text \<open>
  \<open>MultipleObjectMixin.paginate_queryset\<close>, the pagination of a ListView:
  \<open>page = self.kwargs.get('page') or self.request.GET.get('page') or 1\<close>, then \<open>int(page)\<close>
  (the text \<open>last\<close> is the last page), then \<open>paginator.page\<close>, whose InvalidPage becomes Http404.
\<close>

definition paginate_queryset :: "'a list \<Rightarrow> nat \<Rightarrow> query_value \<Rightarrow> error + 'a Page" where
  "paginate_queryset queryset page_size v =
     (case (case v of
              Absent \<Rightarrow> Inr 1
            | Text_int n \<Rightarrow> Inr n
            | Text_other s \<Rightarrow>
                if s = [] then Inr 1
                else if s = ''last'' then Inr (int (num_pages queryset page_size))
                else Inl Raise_Http404) of
        Inl e \<Rightarrow> Inl e
      | Inr page_number \<Rightarrow>
          (case page queryset page_size page_number of
             Inl _ \<Rightarrow> Inl Raise_Http404
           | Inr pg \<Rightarrow> Inr pg))"

section \<open>The views (blog/views.py)\<close>

definition OBJECTS_PER_PAGE :: nat where
  "OBJECTS_PER_PAGE = 10"

subsection \<open>HomePage\<close>

text \<open>
  The class attribute \<open>queryset\<close>. Its \<open>datetime.now()\<close> is evaluated once, when the class
  body runs: \<open>loaded_at\<close> is that value, whatever the time of the request. The lookup
  \<open>category__is_published=True\<close> is an inner join, so it drops a post without a category.
\<close>

definition HomePage_queryset :: "datetime \<Rightarrow> db \<Rightarrow> (Post \<times> nat) list" where
  "HomePage_queryset loaded_at d =
     filter (\<lambda>(p, n). pub_date p \<le> loaded_at \<and> is_published p \<and> category__is_published d p)
       (annotate d (posts d))"

text \<open>\<open>ListView.get_queryset\<close> applies the view's \<open>ordering\<close> with an explicit \<open>order_by\<close>.\<close>

definition HomePage_get_queryset :: "datetime \<Rightarrow> db \<Rightarrow> (Post \<times> nat) list" where
  "HomePage_get_queryset loaded_at d = ordering (HomePage_queryset loaded_at d)"

definition HomePage :: "datetime \<Rightarrow> db \<Rightarrow> request \<Rightarrow> (Post \<times> nat) Page response" where
  "HomePage loaded_at d request =
     (case paginate_queryset (HomePage_get_queryset loaded_at d) OBJECTS_PER_PAGE
             (GET_page request) of
        Inl e \<Rightarrow> error_response e
      | Inr page_obj \<Rightarrow> TemplateResponse page_obj)"

subsection \<open>ProfileView\<close>

text \<open>
  The posts of \<open>get_context_data\<close>: every post of the profile's user when the request is
  authenticated, the published ones dated up to now otherwise. Neither branch has an
  \<open>order_by\<close>, and neither looks at the category.
\<close>

definition ProfileView_posts ::
  "django_release \<Rightarrow> datetime \<Rightarrow> db \<Rightarrow> request \<Rightarrow> User \<Rightarrow> (Post \<times> nat) list" where
  "ProfileView_posts release now d request author =
     Meta_ordering release
       (if is_authenticated request
        then filter (\<lambda>(p, n). Post.author_id p = pk author) (annotate d (posts d))
        else filter (\<lambda>(p, n). Post.author_id p = pk author \<and> is_published p \<and> pub_date p \<le> now)
               (annotate d (posts d)))"

definition ProfileView ::
  "django_release \<Rightarrow> datetime \<Rightarrow> db \<Rightarrow> request \<Rightarrow> string \<Rightarrow>
     (User \<times> (Post \<times> nat) Page) response" where
  "ProfileView release now d request username_kwarg =
     (case get_object_or_404 (users d) (\<lambda>u. username u = username_kwarg) of
        Inl e \<Rightarrow> error_response e
      | Inr obj \<Rightarrow>
          (case get_object_or_404 (users d) (\<lambda>u. username u = username obj) of
             Inl e \<Rightarrow> error_response e
           | Inr author \<Rightarrow>
               (case get_page (ProfileView_posts release now d request author) OBJECTS_PER_PAGE
                       (GET_page request) of
                  Inl e \<Rightarrow> ServerError
                | Inr page_obj \<Rightarrow> TemplateResponse (obj, page_obj))))"

subsection \<open>CategoryListView\<close>

text \<open>\<open>queryset = Category.objects.filter(is_published=True)\<close>, looked up by slug.\<close>

definition CategoryListView_get_object :: "db \<Rightarrow> string \<Rightarrow> error + Category" where
  "CategoryListView_get_object d category_slug =
     get_object_or_404 (categories d) (\<lambda>c. is_published c \<and> slug c = category_slug)"

definition CategoryListView_posts ::
  "django_release \<Rightarrow> datetime \<Rightarrow> db \<Rightarrow> string \<Rightarrow> (Post \<times> nat) list" where
  "CategoryListView_posts release now d category_slug =
     Meta_ordering release
       (filter (\<lambda>(p, n). category__slug d p category_slug \<and> is_published p \<and> pub_date p \<le> now)
          (annotate d (posts d)))"

definition CategoryListView ::
  "django_release \<Rightarrow> datetime \<Rightarrow> db \<Rightarrow> request \<Rightarrow> string \<Rightarrow>
     (Category \<times> (Post \<times> nat) Page) response" where
  "CategoryListView release now d request category_slug =
     (case CategoryListView_get_object d category_slug of
        Inl e \<Rightarrow> error_response e
      | Inr obj \<Rightarrow>
          (case get_page (CategoryListView_posts release now d category_slug) OBJECTS_PER_PAGE
                  (GET_page request) of
             Inl e \<Rightarrow> ServerError
           | Inr page_obj \<Rightarrow> TemplateResponse (obj, page_obj)))"

subsection \<open>PostDetailView\<close>

text \<open>
  \<open>model = Post\<close> and \<open>pk_url_kwarg\<close> only: the object is looked up by id among all posts.
  The context gets \<open>self.object.comments.all()\<close>, in \<open>Comment.Meta.ordering\<close>.
\<close>

definition PostDetailView :: "db \<Rightarrow> request \<Rightarrow> nat \<Rightarrow> (Post \<times> Comment list) response" where
  "PostDetailView d request post_id =
     (case get_object_or_404 (posts d) (\<lambda>p. pk p = post_id) of
        Inl e \<Rightarrow> error_response e
      | Inr obj \<Rightarrow>
          TemplateResponse
            (obj, sort_key Comment.created_at (filter (\<lambda>c. posts_id c = pk obj) (comments d))))"

subsection \<open>The generic editing views of the framework\<close>

text \<open>What a form view renders: an empty form, a form filled from an object, or a form with errors.\<close>

datatype 'i form_page = Blank_form | Prefilled 'i | Form_errors

text \<open>
  \<open>LoginRequiredMixin.dispatch\<close>: an anonymous request is sent to the login page, an
  authenticated one goes on (\<open>super\<close> gets \<open>request.user\<close>).
\<close>

definition LoginRequiredMixin_dispatch ::
  "request \<Rightarrow> db \<Rightarrow> (User \<Rightarrow> 'r response \<times> db) \<Rightarrow> 'r response \<times> db" where
  "LoginRequiredMixin_dispatch request d super =
     (case user request of
        None \<Rightarrow> (HttpResponseRedirect login, d)
      | Some u \<Rightarrow> super u)"

definition next_pk :: "('m Model_scheme) list \<Rightarrow> nat" where
  "next_pk table = Suc (fold max (map pk table) 0)"

text \<open>
  CreateView: GET renders an empty form; POST with an invalid form renders it again; POST with
  a valid form calls the view's \<open>form_valid\<close>, which saves \<open>form.instance\<close> as a new row.
\<close>

definition CreateView ::
  "('m Model_scheme) list \<Rightarrow> http_method \<Rightarrow> ('m Model_scheme) option \<Rightarrow>
   ('m Model_scheme \<Rightarrow> 'm Model_scheme) \<Rightarrow> ('m Model_scheme \<Rightarrow> url) \<Rightarrow>
   ('m Model_scheme) form_page response \<times> ('m Model_scheme) list" where
  "CreateView table m form form_valid get_success_url =
     (case m of
        GET \<Rightarrow> (TemplateResponse Blank_form, table)
      | POST \<Rightarrow>
          (case form of
             None \<Rightarrow> (TemplateResponse Form_errors, table)
           | Some inst \<Rightarrow>
               (let obj = (form_valid inst)\<lparr>pk := next_pk table\<rparr>
                in (HttpResponseRedirect (get_success_url obj), table @ [obj]))))"

text \<open>
  UpdateView: the object is looked up by primary key; GET renders the form filled from it;
  POST with a valid form saves \<open>form.instance\<close> over the object's row.
\<close>

definition UpdateView ::
  "('m Model_scheme) list \<Rightarrow> nat \<Rightarrow> http_method \<Rightarrow> ('m Model_scheme) option \<Rightarrow>
   ('m Model_scheme \<Rightarrow> url) \<Rightarrow>
   ('m Model_scheme) form_page response \<times> ('m Model_scheme) list" where
  "UpdateView table pk_kwarg m form get_success_url =
     (case get_object_or_404 table (\<lambda>x. pk x = pk_kwarg) of
        Inl e \<Rightarrow> (error_response e, table)
      | Inr obj \<Rightarrow>
          (case m of
             GET \<Rightarrow> (TemplateResponse (Prefilled obj), table)
           | POST \<Rightarrow>
               (case form of
                  None \<Rightarrow> (TemplateResponse Form_errors, table)
                | Some inst \<Rightarrow>
                    (let saved = inst\<lparr>pk := pk obj\<rparr>
                     in (HttpResponseRedirect (get_success_url saved),
                         map (\<lambda>x. if pk x = pk obj then saved else x) table)))))"

text \<open>
  DeleteView: GET renders the confirmation page for the object; POST deletes the object.
  Since Django 4.0 the POST goes through the view's form first (here the \<open>form_class\<close> the
  view inherits from its mixin) and deletes only when it validates.
\<close>

definition DeleteView ::
  "django_release \<Rightarrow> ('m Model_scheme) list \<Rightarrow> nat \<Rightarrow> http_method \<Rightarrow> ('m Model_scheme) option \<Rightarrow>
   ('m Model_scheme \<Rightarrow> url) \<Rightarrow>
   ('m Model_scheme) form_page response \<times> ('m Model_scheme) list" where
  "DeleteView release table pk_kwarg m form get_success_url =
     (case get_object_or_404 table (\<lambda>x. pk x = pk_kwarg) of
        Inl e \<Rightarrow> (error_response e, table)
      | Inr obj \<Rightarrow>
          (case m of
             GET \<Rightarrow> (TemplateResponse (Prefilled obj), table)
           | POST \<Rightarrow>
               (if release = Django_4_or_later \<and> form = None
                then (TemplateResponse Form_errors, table)
                else (HttpResponseRedirect (get_success_url obj),
                      filter (\<lambda>x. pk x \<noteq> pk obj) table))))"

subsection \<open>PostEditMixin, PostEditView, PostDeleteView\<close>

text \<open>\<open>instance.author != request.user\<close>: model instances are equal when their keys are.\<close>

definition author_ne_user :: "nat \<Rightarrow> request \<Rightarrow> bool" where
  "author_ne_user author request =
     (case user request of None \<Rightarrow> True | Some u \<Rightarrow> author \<noteq> pk u)"

definition PostEditMixin_dispatch ::
  "db \<Rightarrow> request \<Rightarrow> nat \<Rightarrow> 'r response \<times> db \<Rightarrow> 'r response \<times> db" where
  "PostEditMixin_dispatch d request post_id super =
     (case get_object_or_404 (posts d) (\<lambda>p. pk p = post_id) of
        Inl e \<Rightarrow> (error_response e, d)
      | Inr inst \<Rightarrow>
          if author_ne_user (Post.author_id inst) request
          then (HttpResponseRedirect (post_detail post_id), d)
          else super)"

text \<open>PostEditView has no success URL of its own: UpdateView takes \<open>Post.get_absolute_url\<close>.\<close>

definition get_absolute_url :: "Post \<Rightarrow> url" where
  "get_absolute_url p = post_detail (pk p)"

definition PostEditView :: "db \<Rightarrow> request \<Rightarrow> nat \<Rightarrow> Post form_page response \<times> db" where
  "PostEditView d request post_id =
     PostEditMixin_dispatch d request post_id
       (LoginRequiredMixin_dispatch request d
          (\<lambda>u. case UpdateView (posts d) post_id (http_method request) (post_form request)
                       get_absolute_url of
                  (resp, table) \<Rightarrow> (resp, d\<lparr>posts := table\<rparr>)))"

text \<open>Deleting a post deletes its comments (\<open>on_delete=models.CASCADE\<close> of \<open>Comment.posts\<close>).\<close>

definition PostDeleteView ::
  "django_release \<Rightarrow> db \<Rightarrow> request \<Rightarrow> nat \<Rightarrow> Post form_page response \<times> db" where
  "PostDeleteView release d request post_id =
     PostEditMixin_dispatch d request post_id
       (LoginRequiredMixin_dispatch request d
          (\<lambda>u. case DeleteView release (posts d) post_id (http_method request) (post_form request)
                       (\<lambda>obj. index) of
                  (resp, table) \<Rightarrow>
                    (resp, d\<lparr>posts := table,
                             comments :=
                               (if table = posts d then comments d
                                else filter (\<lambda>c. posts_id c \<noteq> post_id) (comments d))\<rparr>)))"

subsection \<open>CommentEditMixin, EditComment, CommentDeleteView\<close>

text \<open>
  The comment is looked up by \<open>comment_id\<close> alone; the redirect of a foreign request takes
  \<open>post_id\<close> from the URL, while \<open>get_success_url\<close> takes the comment's own \<open>posts_id\<close>.
\<close>

definition CommentEditMixin_dispatch ::
  "db \<Rightarrow> request \<Rightarrow> nat \<Rightarrow> nat \<Rightarrow> 'r response \<times> db \<Rightarrow> 'r response \<times> db" where
  "CommentEditMixin_dispatch d request post_id comment_id super =
     (case get_object_or_404 (comments d) (\<lambda>c. pk c = comment_id) of
        Inl e \<Rightarrow> (error_response e, d)
      | Inr inst \<Rightarrow>
          if author_ne_user (Comment.author_id inst) request
          then (HttpResponseRedirect (post_detail post_id), d)
          else super)"

definition CommentEditMixin_get_success_url :: "Comment \<Rightarrow> url" where
  "CommentEditMixin_get_success_url obj = post_detail (posts_id obj)"

definition EditComment :: "db \<Rightarrow> request \<Rightarrow> nat \<Rightarrow> nat \<Rightarrow> Comment form_page response \<times> db" where
  "EditComment d request post_id comment_id =
     CommentEditMixin_dispatch d request post_id comment_id
       (LoginRequiredMixin_dispatch request d
          (\<lambda>u. case UpdateView (comments d) comment_id (http_method request) (comment_form request)
                       CommentEditMixin_get_success_url of
                  (resp, table) \<Rightarrow> (resp, d\<lparr>comments := table\<rparr>)))"

definition CommentDeleteView ::
  "django_release \<Rightarrow> db \<Rightarrow> request \<Rightarrow> nat \<Rightarrow> nat \<Rightarrow> Comment form_page response \<times> db" where
  "CommentDeleteView release d request post_id comment_id =
     CommentEditMixin_dispatch d request post_id comment_id
       (LoginRequiredMixin_dispatch request d
          (\<lambda>u. case DeleteView release (comments d) comment_id (http_method request)
                       (comment_form request) CommentEditMixin_get_success_url of
                  (resp, table) \<Rightarrow> (resp, d\<lparr>comments := table\<rparr>)))"

subsection \<open>PostCreatView, CommentCreateView\<close>

text \<open>\<open>form.instance.author = self.request.user\<close>, then the framework saves the instance.\<close>

definition PostCreatView_form_valid :: "User \<Rightarrow> Post \<Rightarrow> Post" where
  "PostCreatView_form_valid request_user inst = inst\<lparr>Post.author_id := pk request_user\<rparr>"

definition PostCreatView :: "db \<Rightarrow> request \<Rightarrow> Post form_page response \<times> db" where
  "PostCreatView d request =
     LoginRequiredMixin_dispatch request d
       (\<lambda>u. case CreateView (posts d) (http_method request) (post_form request)
                    (PostCreatView_form_valid u) (\<lambda>obj. profile (username u)) of
               (resp, table) \<Rightarrow> (resp, d\<lparr>posts := table\<rparr>))"

text \<open>
  \<open>form.instance.author = self.request.user; form.instance.posts = self.posts\<close>. The save
  stamps \<open>created_at\<close> (\<open>auto_now_add\<close>).
\<close>

definition CommentCreateView_form_valid :: "datetime \<Rightarrow> User \<Rightarrow> Post \<Rightarrow> Comment \<Rightarrow> Comment" where
  "CommentCreateView_form_valid now request_user post inst =
     inst\<lparr>Comment.author_id := pk request_user, posts_id := pk post, Comment.created_at := now\<rparr>"

definition CommentCreateView ::
  "datetime \<Rightarrow> db \<Rightarrow> request \<Rightarrow> nat \<Rightarrow> Comment form_page response \<times> db" where
  "CommentCreateView now d request post_id =
     (case get_object_or_404 (posts d) (\<lambda>p. pk p = post_id) of
        Inl e \<Rightarrow> (error_response e, d)
      | Inr post \<Rightarrow>
          LoginRequiredMixin_dispatch request d
            (\<lambda>u. case CreateView (comments d) (http_method request) (comment_form request)
                         (CommentCreateView_form_valid now u post) (\<lambda>obj. post_detail (pk post)) of
                    (resp, table) \<Rightarrow> (resp, d\<lparr>comments := table\<rparr>)))"

section \<open>A small blog\<close>

text \<open>
  Two users, a published and an unpublished category, and Alice's five posts in the order
  they were written: a draft, a post without a category, a post in the unpublished
  category, a live post with one comment by Bob, and a post scheduled for later. The
  requests below are made at time 100.
\<close>

definition alice :: User where
  "alice = \<lparr>pk = 1, username = ''alice''\<rparr>"

definition bob :: User where
  "bob = \<lparr>pk = 2, username = ''bob''\<rparr>"

definition travel :: Category where
  "travel = \<lparr>pk = 1, is_published = True, CommonData.created_at = 1,
     Category.title = ''Travel'', description = ''Trips'', slug = ''travel''\<rparr>"

definition hidden :: Category where
  "hidden = \<lparr>pk = 2, is_published = False, CommonData.created_at = 2,
     Category.title = ''Hidden'', description = ''Not yet'', slug = ''hidden''\<rparr>"

definition draft :: Post where
  "draft = \<lparr>pk = 1, is_published = False, CommonData.created_at = 5,
     Post.title = ''Draft'', Post.text_field = ''d'', pub_date = 10, Post.author_id = 1,
     location_id = None, category_id = Some 1, image = []\<rparr>"

definition uncategorised :: Post where
  "uncategorised = \<lparr>pk = 2, is_published = True, CommonData.created_at = 6,
     Post.title = ''Loose'', Post.text_field = ''u'', pub_date = 20, Post.author_id = 1,
     location_id = None, category_id = None, image = []\<rparr>"

definition in_hidden :: Post where
  "in_hidden = \<lparr>pk = 3, is_published = True, CommonData.created_at = 7,
     Post.title = ''Secret'', Post.text_field = ''h'', pub_date = 30, Post.author_id = 1,
     location_id = None, category_id = Some 2, image = []\<rparr>"

definition live_post :: Post where
  "live_post = \<lparr>pk = 4, is_published = True, CommonData.created_at = 8,
     Post.title = ''Rome'', Post.text_field = ''r'', pub_date = 40, Post.author_id = 1,
     location_id = None, category_id = Some 1, image = []\<rparr>"

definition scheduled :: Post where
  "scheduled = \<lparr>pk = 5, is_published = True, CommonData.created_at = 9,
     Post.title = ''Paris'', Post.text_field = ''p'', pub_date = 200, Post.author_id = 1,
     location_id = None, category_id = Some 1, image = []\<rparr>"

definition remark :: Comment where
  "remark = \<lparr>pk = 1, Comment.text_field = ''Nice'', posts_id = 4, Comment.created_at = 50,
     Comment.author_id = 2\<rparr>"

definition blog :: db where
  "blog = \<lparr>users = [alice, bob], categories = [travel, hidden], locations = [],
     posts = [draft, uncategorised, in_hidden, live_post, scheduled], comments = [remark]\<rparr>"

definition anonymous :: request where
  "anonymous = \<lparr>user = None, http_method = GET, GET_page = Absent,
     post_form = None, comment_form = None\<rparr>"

definition as_alice :: request where
  "as_alice = \<lparr>user = Some alice, http_method = GET, GET_page = Absent,
     post_form = None, comment_form = None\<rparr>"

definition as_bob :: request where
  "as_bob = \<lparr>user = Some bob, http_method = GET, GET_page = Absent,
     post_form = None, comment_form = None\<rparr>"

text \<open>
  Bob submits valid forms that name Alice as the author (and, for the comment, another
  post than the one of the URL).
\<close>

definition bob_submits :: request where
  "bob_submits = \<lparr>user = Some bob, http_method = POST, GET_page = Absent,
     post_form = Some (draft\<lparr>Post.title := ''Mine''\<rparr>),
     comment_form = Some (remark\<lparr>Comment.author_id := 1, posts_id := 2\<rparr>)\<rparr>"

text \<open>Alice submits an edit of Bob's comment.\<close>

definition alice_edits :: request where
  "alice_edits = \<lparr>user = Some alice, http_method = POST, GET_page = Absent,
     post_form = None, comment_form = Some (remark\<lparr>Comment.text_field := ''Bad''\<rparr>)\<rparr>"

text \<open>A blog of 25 live posts, all by Alice and all in the published category.\<close>

definition busy_post :: "nat \<Rightarrow> Post" where
  "busy_post i = \<lparr>pk = i, is_published = True, CommonData.created_at = int i,
     Post.title = ''Day'', Post.text_field = ''t'', pub_date = int i, Post.author_id = 1,
     location_id = None, category_id = Some 1, image = []\<rparr>"

definition busy_blog :: db where
  "busy_blog = \<lparr>users = [alice, bob], categories = [travel, hidden], locations = [],
     posts = map busy_post [1..<26], comments = []\<rparr>"

lemmas blog_defs =
  alice_def bob_def travel_def hidden_def draft_def uncategorised_def in_hidden_def
  live_post_def scheduled_def remark_def blog_def anonymous_def as_alice_def as_bob_def

lemmas view_defs =
  get_object_or_404_def error_response_def comment_count_def annotate_def category_of_def
  category__is_published_def category__slug_def ordering_def Meta_ordering_def num_pages_def
  validate_number_def page_def get_page_def paginate_queryset_def OBJECTS_PER_PAGE_def
  is_authenticated_def

section \<open>Homepage visibility\<close>

lemma in_annotate: "(p, n) \<in> set (annotate d ps) \<longleftrightarrow> p \<in> set ps \<and> n = comment_count d p"
  by (auto simp: annotate_def)

lemma fst_set_ordering: "fst ` set (ordering rows) = fst ` set rows"
  by (simp add: ordering_def)

lemma in_HomePage_get_queryset:
  "p \<in> fst ` set (HomePage_get_queryset loaded_at d) \<longleftrightarrow>
     p \<in> set (posts d) \<and> is_published p \<and> pub_date p \<le> loaded_at \<and>
     (\<exists>c. category_of d p = Some c \<and> is_published c)"
  by (auto simp: HomePage_get_queryset_def HomePage_queryset_def fst_set_ordering in_annotate
        category__is_published_def image_iff split: option.splits)

text \<open>
  C1 as stated fails: a published post dated in the past that has no category is left out
  of the homepage, which shows the one post whose category is published.
\<close>

theorem HomePage_drops_uncategorised:
  "is_published uncategorised \<and> pub_date uncategorised \<le> 100 \<and>
   category_id uncategorised = None \<and>
   HomePage 100 blog anonymous =
     TemplateResponse \<lparr>object_list = [(live_post, 1)], number = 1\<rparr>"
  by (simp add: blog_defs view_defs HomePage_def HomePage_get_queryset_def HomePage_queryset_def)

section \<open>Pagination\<close>

lemma num_pages_10: "num_pages xs 10 = (if length xs = 0 then 1 else (length xs + 9) div 10)"
  by (cases xs) (auto simp: num_pages_def max_def)

lemma num_pages_bounds:
  "1 \<le> num_pages xs 10" "length xs \<le> 10 * num_pages xs 10"
proof -
  show "1 \<le> num_pages xs 10" by (cases xs) (simp_all add: num_pages_10)
  have "n \<le> 10 * ((n + 9) div 10)" for n :: nat by presburger
  then show "length xs \<le> 10 * num_pages xs 10" by (simp add: num_pages_10)
qed

lemma page_in_range:
  assumes "1 \<le> n" "n \<le> int (num_pages xs 10)"
  shows "page xs 10 n = Inr \<lparr>object_list = take 10 (drop (10 * (nat n - 1)) xs), number = nat n\<rparr>"
  using assms by (auto simp: page_def validate_number_def Let_def min_def mult.commute)

lemma page_out_of_range:
  "n < 1 \<or> int (num_pages xs 10) < n \<Longrightarrow> page xs 10 n = Inl EmptyPage"
  by (auto simp: page_def validate_number_def)

lemma last_page:
  "page xs 10 (int (num_pages xs 10)) =
     Inr \<lparr>object_list = drop (10 * (num_pages xs 10 - 1)) xs, number = num_pages xs 10\<rparr>"
proof -
  have "length (drop (10 * (num_pages xs 10 - 1)) xs) \<le> 10"
    using num_pages_bounds [of xs] by simp
  then show ?thesis
    using num_pages_bounds(1) [of xs] by (simp add: page_in_range)
qed

lemma get_page_out_of_range:
  "n < 1 \<or> int (num_pages xs 10) < n \<Longrightarrow>
     get_page xs 10 (Text_int n) =
       Inr \<lparr>object_list = drop (10 * (num_pages xs 10 - 1)) xs, number = num_pages xs 10\<rparr>"
  by (auto simp: get_page_def validate_number_def last_page)

lemma get_page_not_integer:
  "v = Absent \<or> v = Text_other s \<Longrightarrow>
     get_page xs 10 v = Inr \<lparr>object_list = take 10 xs, number = 1\<rparr>"
  using num_pages_bounds(1) [of xs]
  by (auto simp: get_page_def validate_number_def page_in_range)

lemma get_page_in_range:
  "1 \<le> n \<Longrightarrow> n \<le> int (num_pages xs 10) \<Longrightarrow>
     get_page xs 10 (Text_int n) =
       Inr \<lparr>object_list = take 10 (drop (10 * (nat n - 1)) xs), number = nat n\<rparr>"
  by (auto simp: get_page_def validate_number_def page_in_range)

lemma get_page_total: "\<exists>pg. get_page xs 10 v = Inr pg"
proof (cases v)
  case Absent
  then show ?thesis by (simp add: get_page_not_integer)
next
  case (Text_int n)
  then show ?thesis
    by (cases "n < 1 \<or> int (num_pages xs 10) < n")
      (simp_all add: get_page_out_of_range get_page_in_range)
next
  case (Text_other s)
  then show ?thesis by (simp add: get_page_not_integer)
qed

lemma paginate_queryset_out_of_range:
  "n < 1 \<or> int (num_pages xs 10) < n \<Longrightarrow> paginate_queryset xs 10 (Text_int n) = Inl Raise_Http404"
  by (simp add: paginate_queryset_def page_out_of_range)

lemma get_object_or_404_Inr:
  "get_object_or_404 table cond = Inr x \<Longrightarrow> filter cond table = [x]"
  by (auto simp: get_object_or_404_def split: list.splits)

lemma get_object_or_404_cond:
  "get_object_or_404 table cond = Inr x \<Longrightarrow> cond x \<and> x \<in> set table"
proof -
  assume "get_object_or_404 table cond = Inr x"
  then have "filter cond table = [x]" by (rule get_object_or_404_Inr)
  then have "x \<in> set (filter cond table)" by simp
  then show ?thesis by simp
qed

section \<open>Profile visibility\<close>

lemma fst_set_Meta_ordering: "fst ` set (Meta_ordering release rows) = fst ` set rows"
  by (cases release) (simp_all add: Meta_ordering_def fst_set_ordering)

lemma ProfileView_page:
  assumes "get_object_or_404 (users d) (\<lambda>u. username u = uname) = Inr obj"
  shows "ProfileView release now d request uname =
     (case get_page (ProfileView_posts release now d request obj) OBJECTS_PER_PAGE (GET_page request) of
        Inl e \<Rightarrow> ServerError
      | Inr page_obj \<Rightarrow> TemplateResponse (obj, page_obj))"
proof -
  from assms have "username obj = uname"
    using get_object_or_404_cond [of "users d" "\<lambda>u. username u = uname" obj] by simp
  with assms show ?thesis by (simp add: ProfileView_def)
qed

lemma in_ProfileView_posts:
  "p \<in> fst ` set (ProfileView_posts release now d request u) \<longleftrightarrow>
     p \<in> set (posts d) \<and> Post.author_id p = pk u \<and>
     (is_authenticated request \<or> is_published p \<and> pub_date p \<le> now)"
  by (auto simp: ProfileView_posts_def fst_set_Meta_ordering in_annotate image_iff)

text \<open>
  C2 as stated fails: Bob, logged in, looks at Alice's profile and gets her draft and her
  scheduled post; the unfiltered view is not the owner's alone.
\<close>

theorem ProfileView_shows_drafts_to_other_users:
  "user as_bob = Some bob \<and> pk bob \<noteq> Post.author_id draft \<and> \<not> is_published draft \<and>
   pub_date scheduled > 100 \<and>
   ProfileView Django_4_or_later 100 blog as_bob ''alice'' =
     TemplateResponse (alice,
       \<lparr>object_list = [(draft, 0), (uncategorised, 0), (in_hidden, 0), (live_post, 1), (scheduled, 0)],
        number = 1\<rparr>) \<and>
   ProfileView Django_2_or_3_0 100 blog as_bob ''alice'' =
     TemplateResponse (alice,
       \<lparr>object_list = [(scheduled, 0), (live_post, 1), (in_hidden, 0), (uncategorised, 0), (draft, 0)],
        number = 1\<rparr>)"
  by (simp add: blog_defs view_defs ProfileView_def ProfileView_posts_def)

text \<open>
  C4 (what the code does at the failing input). An anonymous visitor of Alice's profile is
  shown her post in the unpublished category: the anonymous filter of the profile tests
  the published flag and the date, not the category, which the homepage filter does test.
\<close>

theorem ProfileView_anonymous_ignores_category:
  "category_of blog in_hidden = Some hidden \<and> \<not> is_published hidden \<and>
   ProfileView Django_4_or_later 100 blog anonymous ''alice'' =
     TemplateResponse (alice,
       \<lparr>object_list = [(uncategorised, 0), (in_hidden, 0), (live_post, 1)], number = 1\<rparr>) \<and>
   ProfileView Django_2_or_3_0 100 blog anonymous ''alice'' =
     TemplateResponse (alice,
       \<lparr>object_list = [(live_post, 1), (in_hidden, 0), (uncategorised, 0)], number = 1\<rparr>)"
  by (simp add: blog_defs view_defs ProfileView_def ProfileView_posts_def)

section \<open>Pagination of the listings\<close>

lemma CategoryListView_page:
  assumes "CategoryListView_get_object d s = Inr obj"
  shows "CategoryListView release now d request s =
     (case get_page (CategoryListView_posts release now d s) OBJECTS_PER_PAGE (GET_page request) of
        Inl e \<Rightarrow> ServerError
      | Inr page_obj \<Rightarrow> TemplateResponse (obj, page_obj))"
  using assms by (simp add: CategoryListView_def)

lemma paginate_queryset_in_range:
  "1 \<le> n \<Longrightarrow> n \<le> int (num_pages xs 10) \<Longrightarrow>
     paginate_queryset xs 10 (Text_int n) =
       Inr \<lparr>object_list = take 10 (drop (10 * (nat n - 1)) xs), number = nat n\<rparr>"
  by (simp add: paginate_queryset_def page_in_range)

text \<open>
  C3 as stated fails on the homepage: its listing has one page, and a request for page 2 is
  answered with not-found, not with the nearest page.
\<close>

theorem HomePage_out_of_range_not_found:
  "num_pages (HomePage_get_queryset 100 blog) OBJECTS_PER_PAGE = 1 \<and>
   HomePage 100 blog (anonymous\<lparr>GET_page := Text_int 2\<rparr>) = Http404"
  by (simp add: blog_defs view_defs HomePage_def HomePage_get_queryset_def HomePage_queryset_def)

section \<open>Pages and listings\<close>

text \<open>
  A post is on some page of a listing exactly when it is in the listing's queryset: every
  page is a slice of the queryset, and the pages in range cover it. The visibility results
  are therefore stated on the querysets.
\<close>

lemma page_subset:
  "page xs per_page n = Inr pg \<Longrightarrow> set (object_list pg) \<subseteq> set xs"
proof -
  assume "page xs per_page n = Inr pg"
  then obtain a b where "object_list pg = take a (drop b xs)"
    by (auto simp: page_def Let_def split: sum.splits)
  then show ?thesis
    by (metis set_take_subset set_drop_subset subset_trans)
qed

lemma get_page_subset:
  "get_page xs per_page v = Inr pg \<Longrightarrow> set (object_list pg) \<subseteq> set xs"
  by (auto simp: get_page_def split: sum.splits invalid_page.splits dest: page_subset)

lemma paginate_queryset_subset:
  "paginate_queryset xs per_page v = Inr pg \<Longrightarrow> set (object_list pg) \<subseteq> set xs"
  by (auto simp: paginate_queryset_def split: sum.splits query_value.splits if_splits
        dest: page_subset)

lemma pages_cover:
  assumes "x \<in> set xs"
  shows "\<exists>n. 1 \<le> n \<and> n \<le> int (num_pages xs 10) \<and>
           x \<in> set (take 10 (drop (10 * (nat n - 1)) xs))"
proof -
  from assms obtain i where i: "i < length xs" "xs ! i = x"
    by (auto simp: in_set_conv_nth)
  define b where "b = 10 * (i div 10)"
  define r where "r = i mod 10"
  have br: "b + r = i" by (simp add: b_def r_def)
  have r10: "r < 10" by (simp add: r_def)
  have bl: "b \<le> length xs" using br i(1) by linarith
  have rl: "r < length xs - b" using br i(1) by linarith
  have "drop b xs ! r = x"
    using bl br i(2) by simp
  moreover have "r < length (take 10 (drop b xs))"
    using r10 rl by simp
  ultimately have "take 10 (drop b xs) ! r = x \<and> r < length (take 10 (drop b xs))"
    by simp
  then have mem: "x \<in> set (take 10 (drop b xs))"
    using nth_mem by blast
  have "i + 10 \<le> length xs + 9" using i(1) by simp
  then have "(i + 10) div 10 \<le> (length xs + 9) div 10" by (rule div_le_mono)
  then have "i div 10 + 1 \<le> num_pages xs 10"
    using i(1) by (auto simp: num_pages_10)
  then have le: "int (i div 10) + 1 \<le> int (num_pages xs 10)" by linarith
  have "nat (int (i div 10) + 1) - 1 = i div 10" by simp
  with mem have "x \<in> set (take 10 (drop (10 * (nat (int (i div 10) + 1) - 1)) xs))"
    by (simp add: b_def)
  with le show ?thesis
    by (intro exI [of _ "int (i div 10) + 1"]) simp
qed

lemma get_page_covers:
  assumes "x \<in> set xs"
  shows "\<exists>n pg. get_page xs OBJECTS_PER_PAGE (Text_int n) = Inr pg \<and> x \<in> set (object_list pg)"
proof -
  from pages_cover [OF assms] obtain n where
    "1 \<le> n" "n \<le> int (num_pages xs 10)" "x \<in> set (take 10 (drop (10 * (nat n - 1)) xs))"
    by blast
  then show ?thesis
    by (auto simp: OBJECTS_PER_PAGE_def get_page_in_range intro!: exI [of _ n])
qed

lemma paginate_queryset_covers:
  assumes "x \<in> set xs"
  shows "\<exists>n pg. paginate_queryset xs OBJECTS_PER_PAGE (Text_int n) = Inr pg \<and>
           x \<in> set (object_list pg)"
proof -
  from pages_cover [OF assms] obtain n where
    "1 \<le> n" "n \<le> int (num_pages xs 10)" "x \<in> set (take 10 (drop (10 * (nat n - 1)) xs))"
    by blast
  then show ?thesis
    by (auto simp: OBJECTS_PER_PAGE_def paginate_queryset_in_range intro!: exI [of _ n])
qed

lemma HomePage_pages_are_the_listing:
  "(\<exists>request pg. HomePage loaded_at d request = TemplateResponse pg \<and> row \<in> set (object_list pg))
     \<longleftrightarrow> row \<in> set (HomePage_get_queryset loaded_at d)"
proof
  assume "\<exists>request pg. HomePage loaded_at d request = TemplateResponse pg \<and> row \<in> set (object_list pg)"
  then obtain request pg where
    h: "HomePage loaded_at d request = TemplateResponse pg" "row \<in> set (object_list pg)"
    by blast
  from h(1) have "paginate_queryset (HomePage_get_queryset loaded_at d) OBJECTS_PER_PAGE
      (GET_page request) = Inr pg"
    by (auto simp: HomePage_def error_response_def split: sum.splits error.splits)
  with h(2) show "row \<in> set (HomePage_get_queryset loaded_at d)"
    using paginate_queryset_subset by blast
next
  assume "row \<in> set (HomePage_get_queryset loaded_at d)"
  from paginate_queryset_covers [OF this] obtain n pg where
    p: "paginate_queryset (HomePage_get_queryset loaded_at d) OBJECTS_PER_PAGE (Text_int n) = Inr pg"
      "row \<in> set (object_list pg)"
    by blast
  let ?request = "\<lparr>user = None, http_method = GET, GET_page = Text_int n,
     post_form = None, comment_form = None\<rparr>"
  from p have "HomePage loaded_at d ?request = TemplateResponse pg"
    by (simp add: HomePage_def)
  with p(2) show "\<exists>request pg. HomePage loaded_at d request = TemplateResponse pg \<and>
      row \<in> set (object_list pg)"
    by blast
qed

lemma ProfileView_posts_page_param:
  "ProfileView_posts release now d (request\<lparr>GET_page := v\<rparr>) u =
     ProfileView_posts release now d request u"
  by (simp add: ProfileView_posts_def is_authenticated_def)

lemma ProfileView_pages_are_the_listing:
  assumes "get_object_or_404 (users d) (\<lambda>u. username u = uname) = Inr u"
  shows "(\<exists>v pg. ProfileView release now d (request\<lparr>GET_page := v\<rparr>) uname = TemplateResponse (u, pg) \<and>
            row \<in> set (object_list pg))
     \<longleftrightarrow> row \<in> set (ProfileView_posts release now d request u)"
proof
  assume "\<exists>v pg. ProfileView release now d (request\<lparr>GET_page := v\<rparr>) uname = TemplateResponse (u, pg) \<and>
      row \<in> set (object_list pg)"
  then obtain v pg where
    h: "ProfileView release now d (request\<lparr>GET_page := v\<rparr>) uname = TemplateResponse (u, pg)"
      "row \<in> set (object_list pg)"
    by blast
  from h(1) have "get_page (ProfileView_posts release now d request u) OBJECTS_PER_PAGE v = Inr pg"
    by (auto simp: ProfileView_page [OF assms] ProfileView_posts_page_param split: sum.splits)
  with h(2) show "row \<in> set (ProfileView_posts release now d request u)"
    using get_page_subset by blast
next
  assume "row \<in> set (ProfileView_posts release now d request u)"
  from get_page_covers [OF this] obtain n pg where
    p: "get_page (ProfileView_posts release now d request u) OBJECTS_PER_PAGE (Text_int n) = Inr pg"
      "row \<in> set (object_list pg)"
    by blast
  then have "ProfileView release now d (request\<lparr>GET_page := Text_int n\<rparr>) uname =
      TemplateResponse (u, pg)"
    by (simp add: ProfileView_page [OF assms] ProfileView_posts_page_param)
  with p(2) show "\<exists>v pg. ProfileView release now d (request\<lparr>GET_page := v\<rparr>) uname =
      TemplateResponse (u, pg) \<and> row \<in> set (object_list pg)"
    by blast
qed

section \<open>Visibility and pagination of the listings\<close>

lemma HomePage_pages_show:
  "(\<exists>request pg. HomePage loaded_at d request = TemplateResponse pg \<and>
      p \<in> fst ` set (object_list pg))
     \<longleftrightarrow> p \<in> fst ` set (HomePage_get_queryset loaded_at d)"
proof
  assume "\<exists>request pg. HomePage loaded_at d request = TemplateResponse pg \<and>
      p \<in> fst ` set (object_list pg)"
  then obtain request pg row where
    h: "HomePage loaded_at d request = TemplateResponse pg" "row \<in> set (object_list pg)"
      "fst row = p"
    by auto
  from h(1,2) have "row \<in> set (HomePage_get_queryset loaded_at d)"
    using HomePage_pages_are_the_listing by blast
  with h(3) show "p \<in> fst ` set (HomePage_get_queryset loaded_at d)" by force
next
  assume "p \<in> fst ` set (HomePage_get_queryset loaded_at d)"
  then obtain row where r: "row \<in> set (HomePage_get_queryset loaded_at d)" "fst row = p"
    by auto
  from r(1) obtain request pg where
    "HomePage loaded_at d request = TemplateResponse pg" "row \<in> set (object_list pg)"
    using HomePage_pages_are_the_listing by blast
  with r(2) show "\<exists>request pg. HomePage loaded_at d request = TemplateResponse pg \<and>
      p \<in> fst ` set (object_list pg)"
    by force
qed

text \<open>
  C1 (amended). Let the homepage's filter be built at \<open>loaded_at\<close> and the request be made
  at \<open>now\<close>, not earlier. A post that is not dated after \<open>loaded_at\<close> and up to \<open>now\<close> is on
  a page of the homepage exactly when it is published, its publication date is not after
  \<open>now\<close>, and it has a category that is published; a post without a category is not
  listed. Of a post dated after \<open>loaded_at\<close> and up to \<open>now\<close>, where the
  \<open>datetime.now()\<close> evaluated once in the class body and the time of the request disagree,
  nothing is stated.
\<close>

theorem HomePage_listing_iff:
  assumes "loaded_at \<le> now" and "pub_date p \<le> loaded_at \<or> now < pub_date p"
  shows "(\<exists>request pg. HomePage loaded_at d request = TemplateResponse pg \<and>
            p \<in> fst ` set (object_list pg))
     \<longleftrightarrow>
       p \<in> set (posts d) \<and> is_published p \<and> pub_date p \<le> now \<and>
       (\<exists>c. category_of d p = Some c \<and> is_published c)"
proof -
  from assms have "pub_date p \<le> loaded_at \<longleftrightarrow> pub_date p \<le> now" by linarith
  then show ?thesis
    by (simp only: HomePage_pages_show in_HomePage_get_queryset)
qed

theorem HomePage_listing_iff_witness:
  "(100 :: int) \<le> 150 \<and> pub_date live_post \<le> 100 \<and>
   (\<exists>request pg. HomePage 100 blog request = TemplateResponse pg \<and>
      live_post \<in> fst ` set (object_list pg)) \<and>
   150 < pub_date scheduled \<and>
   \<not> (\<exists>request pg. HomePage 100 blog request = TemplateResponse pg \<and>
        scheduled \<in> fst ` set (object_list pg))"
proof -
  have a: "(100 :: int) \<le> 150" by simp
  have b: "pub_date live_post \<le> 100 \<or> 150 < pub_date live_post"
    by (simp add: live_post_def)
  have c: "pub_date scheduled \<le> 100 \<or> 150 < pub_date scheduled"
    by (simp add: scheduled_def)
  show ?thesis
    using HomePage_listing_iff [OF a b, of blog] HomePage_listing_iff [OF a c, of blog]
    by (simp add: blog_defs category_of_def)
qed

lemma ProfileView_pages_show:
  assumes "get_object_or_404 (users d) (\<lambda>u. username u = uname) = Inr u"
  shows "(\<exists>v pg. ProfileView release now d (request\<lparr>GET_page := v\<rparr>) uname =
              TemplateResponse (u, pg) \<and> p \<in> fst ` set (object_list pg))
     \<longleftrightarrow> p \<in> fst ` set (ProfileView_posts release now d request u)"
proof
  assume "\<exists>v pg. ProfileView release now d (request\<lparr>GET_page := v\<rparr>) uname =
      TemplateResponse (u, pg) \<and> p \<in> fst ` set (object_list pg)"
  then obtain v pg row where
    h: "ProfileView release now d (request\<lparr>GET_page := v\<rparr>) uname = TemplateResponse (u, pg)"
      "row \<in> set (object_list pg)" "fst row = p"
    by auto
  from h(1,2) have "row \<in> set (ProfileView_posts release now d request u)"
    using ProfileView_pages_are_the_listing [OF assms] by blast
  with h(3) show "p \<in> fst ` set (ProfileView_posts release now d request u)" by force
next
  assume "p \<in> fst ` set (ProfileView_posts release now d request u)"
  then obtain row where
    r: "row \<in> set (ProfileView_posts release now d request u)" "fst row = p"
    by auto
  from r(1) obtain v pg where
    "ProfileView release now d (request\<lparr>GET_page := v\<rparr>) uname = TemplateResponse (u, pg)"
    "row \<in> set (object_list pg)"
    using ProfileView_pages_are_the_listing [OF assms] by blast
  with r(2) show "\<exists>v pg. ProfileView release now d (request\<lparr>GET_page := v\<rparr>) uname =
      TemplateResponse (u, pg) \<and> p \<in> fst ` set (object_list pg)"
    by force
qed

text \<open>
  C2 (amended). On the profile of a user U, an authenticated request, made as U or as any
  other user, is shown exactly the posts of U, whatever their published flag and
  publication date. An anonymous request is shown only posts of U that are published and
  dated up to now.
\<close>

theorem ProfileView_posts_visibility:
  assumes "get_object_or_404 (users d) (\<lambda>u. username u = uname) = Inr u"
  shows
    "(is_authenticated request \<longrightarrow>
        ((\<exists>v pg. ProfileView release now d (request\<lparr>GET_page := v\<rparr>) uname =
                   TemplateResponse (u, pg) \<and> p \<in> fst ` set (object_list pg))
           \<longleftrightarrow> p \<in> set (posts d) \<and> Post.author_id p = pk u)) \<and>
     (\<not> is_authenticated request \<longrightarrow>
        ((\<exists>v pg. ProfileView release now d (request\<lparr>GET_page := v\<rparr>) uname =
                   TemplateResponse (u, pg) \<and> p \<in> fst ` set (object_list pg))
           \<longrightarrow> p \<in> set (posts d) \<and> Post.author_id p = pk u \<and>
               is_published p \<and> pub_date p \<le> now))"
  by (simp only: ProfileView_pages_show [OF assms] in_ProfileView_posts) blast

theorem ProfileView_posts_visibility_witness:
  "get_object_or_404 (users blog) (\<lambda>u. username u = ''alice'') = Inr alice \<and>
   is_authenticated as_alice \<and> is_authenticated as_bob \<and>
   draft \<in> set (posts blog) \<and> Post.author_id draft = pk alice \<and> \<not> is_published draft \<and>
   (\<exists>v pg. ProfileView Django_4_or_later 100 blog (as_alice\<lparr>GET_page := v\<rparr>) ''alice'' =
             TemplateResponse (alice, pg) \<and> draft \<in> fst ` set (object_list pg)) \<and>
   (\<exists>v pg. ProfileView Django_4_or_later 100 blog (as_bob\<lparr>GET_page := v\<rparr>) ''alice'' =
             TemplateResponse (alice, pg) \<and> draft \<in> fst ` set (object_list pg)) \<and>
   \<not> is_authenticated anonymous \<and>
   \<not> (\<exists>v pg. ProfileView Django_4_or_later 100 blog (anonymous\<lparr>GET_page := v\<rparr>) ''alice'' =
             TemplateResponse (alice, pg) \<and> draft \<in> fst ` set (object_list pg))"
proof -
  have u: "get_object_or_404 (users blog) (\<lambda>u. username u = ''alice'') = Inr alice"
    by (simp add: blog_defs get_object_or_404_def)
  have f: "is_authenticated as_alice" "is_authenticated as_bob" "\<not> is_authenticated anonymous"
    "draft \<in> set (posts blog)" "Post.author_id draft = pk alice" "\<not> is_published draft"
    by (simp_all add: blog_defs is_authenticated_def)
  show ?thesis
    using ProfileView_posts_visibility [OF u, of as_alice Django_4_or_later 100 draft]
      ProfileView_posts_visibility [OF u, of as_bob Django_4_or_later 100 draft]
      ProfileView_posts_visibility [OF u, of anonymous Django_4_or_later 100 draft]
    by (simp add: u f)
qed

lemma HomePage_response:
  assumes "GET_page request = Text_int n"
  shows "HomePage loaded_at d request =
     (if 1 \<le> n \<and> n \<le> int (num_pages (HomePage_get_queryset loaded_at d) OBJECTS_PER_PAGE)
      then TemplateResponse
             \<lparr>object_list = take 10 (drop (10 * (nat n - 1)) (HomePage_get_queryset loaded_at d)),
              number = nat n\<rparr>
      else Http404)"
proof (cases "1 \<le> n \<and> n \<le> int (num_pages (HomePage_get_queryset loaded_at d) 10)")
  case True
  then show ?thesis
    using assms by (simp add: HomePage_def OBJECTS_PER_PAGE_def paginate_queryset_in_range)
next
  case False
  then have "n < 1 \<or> int (num_pages (HomePage_get_queryset loaded_at d) 10) < n" by linarith
  then have "paginate_queryset (HomePage_get_queryset loaded_at d) 10 (Text_int n) = Inl Raise_Http404"
    by (rule paginate_queryset_out_of_range)
  with False show ?thesis
    using assms by (simp add: HomePage_def OBJECTS_PER_PAGE_def error_response_def)
qed

lemma get_page_response:
  "get_page xs OBJECTS_PER_PAGE (Text_int n) =
     Inr (if 1 \<le> n \<and> n \<le> int (num_pages xs OBJECTS_PER_PAGE)
          then \<lparr>object_list = take 10 (drop (10 * (nat n - 1)) xs), number = nat n\<rparr>
          else \<lparr>object_list = drop (10 * (num_pages xs OBJECTS_PER_PAGE - 1)) xs,
                number = num_pages xs OBJECTS_PER_PAGE\<rparr>)"
proof (cases "1 \<le> n \<and> n \<le> int (num_pages xs 10)")
  case True
  then show ?thesis by (simp add: OBJECTS_PER_PAGE_def get_page_in_range)
next
  case False
  then have "n < 1 \<or> int (num_pages xs 10) < n" by linarith
  from get_page_out_of_range [OF this] False show ?thesis
    by (auto simp: OBJECTS_PER_PAGE_def)
qed

lemma ProfileView_response:
  assumes "GET_page request = Text_int n"
    and "get_object_or_404 (users d) (\<lambda>u. username u = uname) = Inr u"
  shows "ProfileView release now d request uname =
     TemplateResponse (u,
       if 1 \<le> n \<and> n \<le> int (num_pages (ProfileView_posts release now d request u) OBJECTS_PER_PAGE)
       then \<lparr>object_list = take 10 (drop (10 * (nat n - 1)) (ProfileView_posts release now d request u)),
             number = nat n\<rparr>
       else \<lparr>object_list =
               drop (10 * (num_pages (ProfileView_posts release now d request u) OBJECTS_PER_PAGE - 1))
                 (ProfileView_posts release now d request u),
             number = num_pages (ProfileView_posts release now d request u) OBJECTS_PER_PAGE\<rparr>)"
  by (simp only: ProfileView_page [OF assms(2)] assms(1) get_page_response sum.case)

lemma CategoryListView_response:
  assumes "GET_page request = Text_int n"
    and "CategoryListView_get_object d s = Inr c"
  shows "CategoryListView release now d request s =
     TemplateResponse (c,
       if 1 \<le> n \<and> n \<le> int (num_pages (CategoryListView_posts release now d s) OBJECTS_PER_PAGE)
       then \<lparr>object_list = take 10 (drop (10 * (nat n - 1)) (CategoryListView_posts release now d s)),
             number = nat n\<rparr>
       else \<lparr>object_list =
               drop (10 * (num_pages (CategoryListView_posts release now d s) OBJECTS_PER_PAGE - 1))
                 (CategoryListView_posts release now d s),
             number = num_pages (CategoryListView_posts release now d s) OBJECTS_PER_PAGE\<rparr>)"
  by (simp only: CategoryListView_page [OF assms(2)] assms(1) get_page_response sum.case)

lemma sizes_of_25:
  assumes "length xs = 25"
  shows "num_pages xs OBJECTS_PER_PAGE = 3"
    and "1 \<le> n \<and> n \<le> 3 \<Longrightarrow>
           length (take 10 (drop (10 * (nat n - 1)) xs)) = (if n = 3 then 5 else 10)"
    and "10 * (num_pages xs OBJECTS_PER_PAGE - 1) = 20"
    and "length (drop 20 xs) = 5"
proof -
  show np: "num_pages xs OBJECTS_PER_PAGE = 3"
    using assms by (simp add: OBJECTS_PER_PAGE_def num_pages_10)
  show "length (take 10 (drop (10 * (nat n - 1)) xs)) = (if n = 3 then 5 else 10)"
    if "1 \<le> n \<and> n \<le> 3"
  proof -
    from that have "n = 1 \<or> n = 2 \<or> n = 3" by linarith
    then show ?thesis using assms by auto
  qed
  show "10 * (num_pages xs OBJECTS_PER_PAGE - 1) = 20" by (simp add: np)
  show "length (drop 20 xs) = 5" using assms by simp
qed

text \<open>
  C3 (amended). Each of the three views cuts its listing into pages of ten: a page number
  \<open>n\<close> in range selects the posts \<open>10 (n - 1) + 1\<close> to \<open>10 n\<close> of the listing. For a page number
  out of range the profile and the category listing (\<open>Paginator.get_page\<close>) answer with the
  last page, and the homepage (a ListView) answers with not-found. A listing of 25 posts
  has exactly three pages, of 10, 10 and 5 posts, on each view; any other page number is
  page 3 on the profile and the category listing and not-found on the homepage.
\<close>

theorem listing_pagination:
  assumes pg: "GET_page request = Text_int n"
    and usr: "get_object_or_404 (users d) (\<lambda>u. username u = uname) = Inr u"
    and cat: "CategoryListView_get_object d s = Inr c"
  shows
    "HomePage loaded_at d request =
       (if 1 \<le> n \<and> n \<le> int (num_pages (HomePage_get_queryset loaded_at d) OBJECTS_PER_PAGE)
        then TemplateResponse
               \<lparr>object_list = take 10 (drop (10 * (nat n - 1)) (HomePage_get_queryset loaded_at d)),
                number = nat n\<rparr>
        else Http404) \<and>
     ProfileView release now d request uname =
       TemplateResponse (u,
         if 1 \<le> n \<and> n \<le> int (num_pages (ProfileView_posts release now d request u) OBJECTS_PER_PAGE)
         then \<lparr>object_list = take 10 (drop (10 * (nat n - 1)) (ProfileView_posts release now d request u)),
               number = nat n\<rparr>
         else \<lparr>object_list =
                 drop (10 * (num_pages (ProfileView_posts release now d request u) OBJECTS_PER_PAGE - 1))
                   (ProfileView_posts release now d request u),
               number = num_pages (ProfileView_posts release now d request u) OBJECTS_PER_PAGE\<rparr>) \<and>
     CategoryListView release now d request s =
       TemplateResponse (c,
         if 1 \<le> n \<and> n \<le> int (num_pages (CategoryListView_posts release now d s) OBJECTS_PER_PAGE)
         then \<lparr>object_list = take 10 (drop (10 * (nat n - 1)) (CategoryListView_posts release now d s)),
               number = nat n\<rparr>
         else \<lparr>object_list =
                 drop (10 * (num_pages (CategoryListView_posts release now d s) OBJECTS_PER_PAGE - 1))
                   (CategoryListView_posts release now d s),
               number = num_pages (CategoryListView_posts release now d s) OBJECTS_PER_PAGE\<rparr>) \<and>
     (length (HomePage_get_queryset loaded_at d) = 25 \<longrightarrow>
        (1 \<le> n \<and> n \<le> 3 \<longrightarrow>
           (\<exists>page_obj. HomePage loaded_at d request = TemplateResponse page_obj \<and>
              number page_obj = nat n \<and>
              length (object_list page_obj) = (if n = 3 then 5 else 10))) \<and>
        (n < 1 \<or> 3 < n \<longrightarrow> HomePage loaded_at d request = Http404)) \<and>
     (length (ProfileView_posts release now d request u) = 25 \<longrightarrow>
        (1 \<le> n \<and> n \<le> 3 \<longrightarrow>
           (\<exists>page_obj. ProfileView release now d request uname = TemplateResponse (u, page_obj) \<and>
              number page_obj = nat n \<and>
              length (object_list page_obj) = (if n = 3 then 5 else 10))) \<and>
        (n < 1 \<or> 3 < n \<longrightarrow>
           ProfileView release now d request uname =
             TemplateResponse (u,
               \<lparr>object_list = drop 20 (ProfileView_posts release now d request u), number = 3\<rparr>) \<and>
           length (drop 20 (ProfileView_posts release now d request u)) = 5)) \<and>
     (length (CategoryListView_posts release now d s) = 25 \<longrightarrow>
        (1 \<le> n \<and> n \<le> 3 \<longrightarrow>
           (\<exists>page_obj. CategoryListView release now d request s = TemplateResponse (c, page_obj) \<and>
              number page_obj = nat n \<and>
              length (object_list page_obj) = (if n = 3 then 5 else 10))) \<and>
        (n < 1 \<or> 3 < n \<longrightarrow>
           CategoryListView release now d request s =
             TemplateResponse (c,
               \<lparr>object_list = drop 20 (CategoryListView_posts release now d s), number = 3\<rparr>) \<and>
           length (drop 20 (CategoryListView_posts release now d s)) = 5))"
proof -
  note home = HomePage_response [OF pg, of loaded_at d]
  note prof = ProfileView_response [OF pg usr, of release now]
  note catg = CategoryListView_response [OF pg cat, of release now]
  have h25: "(1 \<le> n \<and> n \<le> 3 \<longrightarrow>
           (\<exists>page_obj. HomePage loaded_at d request = TemplateResponse page_obj \<and>
              number page_obj = nat n \<and>
              length (object_list page_obj) = (if n = 3 then 5 else 10))) \<and>
        (n < 1 \<or> 3 < n \<longrightarrow> HomePage loaded_at d request = Http404)"
    if len: "length (HomePage_get_queryset loaded_at d) = 25"
    using home sizes_of_25(1) [OF len] sizes_of_25(2) [OF len, of n] by auto
  have p25: "(1 \<le> n \<and> n \<le> 3 \<longrightarrow>
           (\<exists>page_obj. ProfileView release now d request uname = TemplateResponse (u, page_obj) \<and>
              number page_obj = nat n \<and>
              length (object_list page_obj) = (if n = 3 then 5 else 10))) \<and>
        (n < 1 \<or> 3 < n \<longrightarrow>
           ProfileView release now d request uname =
             TemplateResponse (u,
               \<lparr>object_list = drop 20 (ProfileView_posts release now d request u), number = 3\<rparr>) \<and>
           length (drop 20 (ProfileView_posts release now d request u)) = 5)"
    if len: "length (ProfileView_posts release now d request u) = 25"
    using prof sizes_of_25(1) [OF len] sizes_of_25(2) [OF len, of n] sizes_of_25(4) [OF len]
    by auto
  have c25: "(1 \<le> n \<and> n \<le> 3 \<longrightarrow>
           (\<exists>page_obj. CategoryListView release now d request s = TemplateResponse (c, page_obj) \<and>
              number page_obj = nat n \<and>
              length (object_list page_obj) = (if n = 3 then 5 else 10))) \<and>
        (n < 1 \<or> 3 < n \<longrightarrow>
           CategoryListView release now d request s =
             TemplateResponse (c,
               \<lparr>object_list = drop 20 (CategoryListView_posts release now d s), number = 3\<rparr>) \<and>
           length (drop 20 (CategoryListView_posts release now d s)) = 5)"
    if len: "length (CategoryListView_posts release now d s) = 25"
    using catg sizes_of_25(1) [OF len] sizes_of_25(2) [OF len, of n] sizes_of_25(4) [OF len]
    by auto
  from home prof catg h25 p25 c25 show ?thesis by blast
qed

lemma filter_map_all:
  "(\<And>x. x \<in> set xs \<Longrightarrow> P (f x)) \<Longrightarrow> filter P (map f xs) = map f xs"
  by (induction xs) simp_all

lemma busy_rows:
  "annotate busy_blog (posts busy_blog) = map (\<lambda>i. (busy_post i, 0)) [1..<26]"
  by (simp add: annotate_def comment_count_def busy_blog_def comp_def)

lemma busy_category: "category_of busy_blog (busy_post i) = Some travel"
  by (simp add: category_of_def busy_blog_def busy_post_def travel_def)

lemma busy_HomePage_length: "length (HomePage_get_queryset 100 busy_blog) = 25"
proof -
  have "HomePage_queryset 100 busy_blog = map (\<lambda>i. (busy_post i, 0)) [1..<26]"
    unfolding HomePage_queryset_def busy_rows
    by (rule filter_map_all)
      (simp add: category__is_published_def busy_category, simp add: busy_post_def travel_def)
  then show ?thesis by (simp add: HomePage_get_queryset_def ordering_def)
qed

lemma length_Meta_ordering: "length (Meta_ordering release rows) = length rows"
  by (cases release) (simp_all add: Meta_ordering_def ordering_def)

lemma busy_ProfileView_length:
  "length (ProfileView_posts release 100 busy_blog request alice) = 25"
proof -
  have a: "filter (\<lambda>(p, n). Post.author_id p = pk alice) (map (\<lambda>i. (busy_post i, 0 :: nat)) [1..<26]) =
      map (\<lambda>i. (busy_post i, 0)) [1..<26]"
    by (rule filter_map_all) (simp add: busy_post_def alice_def)
  have b: "filter (\<lambda>(p, n). Post.author_id p = pk alice \<and> is_published p \<and> pub_date p \<le> 100)
        (map (\<lambda>i. (busy_post i, 0 :: nat)) [1..<26]) =
      map (\<lambda>i. (busy_post i, 0)) [1..<26]"
    by (rule filter_map_all) (simp add: busy_post_def alice_def)
  have "ProfileView_posts release 100 busy_blog request alice =
      Meta_ordering release (map (\<lambda>i. (busy_post i, 0)) [1..<26])"
    by (cases "is_authenticated request")
      (simp_all only: ProfileView_posts_def busy_rows a b if_True if_False)
  then show ?thesis by (simp add: length_Meta_ordering)
qed

lemma busy_CategoryListView_length:
  "length (CategoryListView_posts release 100 busy_blog ''travel'') = 25"
proof -
  have "filter (\<lambda>(p, n). category__slug busy_blog p ''travel'' \<and> is_published p \<and> pub_date p \<le> 100)
        (map (\<lambda>i. (busy_post i, 0 :: nat)) [1..<26]) =
      map (\<lambda>i. (busy_post i, 0)) [1..<26]"
    by (rule filter_map_all)
      (simp add: category__slug_def busy_category, simp add: busy_post_def travel_def)
  then have "CategoryListView_posts release 100 busy_blog ''travel'' =
      Meta_ordering release (map (\<lambda>i. (busy_post i, 0)) [1..<26])"
    by (simp only: CategoryListView_posts_def busy_rows)
  then show ?thesis by (simp add: length_Meta_ordering)
qed

theorem listing_pagination_witness:
  "GET_page (anonymous\<lparr>GET_page := Text_int 99\<rparr>) = Text_int 99 \<and>
   GET_page (anonymous\<lparr>GET_page := Text_int 3\<rparr>) = Text_int 3 \<and>
   get_object_or_404 (users busy_blog) (\<lambda>u. username u = ''alice'') = Inr alice \<and>
   CategoryListView_get_object busy_blog ''travel'' = Inr travel \<and>
   length (HomePage_get_queryset 100 busy_blog) = 25 \<and>
   length (ProfileView_posts Django_4_or_later 100 busy_blog
             (anonymous\<lparr>GET_page := Text_int 99\<rparr>) alice) = 25 \<and>
   length (ProfileView_posts Django_4_or_later 100 busy_blog
             (anonymous\<lparr>GET_page := Text_int 3\<rparr>) alice) = 25 \<and>
   length (CategoryListView_posts Django_4_or_later 100 busy_blog ''travel'') = 25 \<and>
   HomePage 100 busy_blog (anonymous\<lparr>GET_page := Text_int 99\<rparr>) = Http404 \<and>
   ProfileView Django_4_or_later 100 busy_blog (anonymous\<lparr>GET_page := Text_int 99\<rparr>) ''alice'' =
     TemplateResponse (alice,
       \<lparr>object_list =
          drop 20 (ProfileView_posts Django_4_or_later 100 busy_blog
                     (anonymous\<lparr>GET_page := Text_int 99\<rparr>) alice),
        number = 3\<rparr>) \<and>
   CategoryListView Django_4_or_later 100 busy_blog (anonymous\<lparr>GET_page := Text_int 99\<rparr>)
       ''travel'' =
     TemplateResponse (travel,
       \<lparr>object_list = drop 20 (CategoryListView_posts Django_4_or_later 100 busy_blog ''travel''),
        number = 3\<rparr>) \<and>
   (\<exists>page_obj. HomePage 100 busy_blog (anonymous\<lparr>GET_page := Text_int 3\<rparr>) =
        TemplateResponse page_obj \<and>
      number page_obj = 3 \<and> length (object_list page_obj) = 5) \<and>
   (\<exists>page_obj. ProfileView Django_4_or_later 100 busy_blog
        (anonymous\<lparr>GET_page := Text_int 3\<rparr>) ''alice'' = TemplateResponse (alice, page_obj) \<and>
      number page_obj = 3 \<and> length (object_list page_obj) = 5) \<and>
   (\<exists>page_obj. CategoryListView Django_4_or_later 100 busy_blog
        (anonymous\<lparr>GET_page := Text_int 3\<rparr>) ''travel'' = TemplateResponse (travel, page_obj) \<and>
      number page_obj = 3 \<and> length (object_list page_obj) = 5)"
proof -
  have p99: "GET_page (anonymous\<lparr>GET_page := Text_int 99\<rparr>) = Text_int 99"
    and p3: "GET_page (anonymous\<lparr>GET_page := Text_int 3\<rparr>) = Text_int 3"
    by simp_all
  have u: "get_object_or_404 (users busy_blog) (\<lambda>u. username u = ''alice'') = Inr alice"
    by (simp add: busy_blog_def alice_def bob_def get_object_or_404_def)
  have c: "CategoryListView_get_object busy_blog ''travel'' = Inr travel"
    by (simp add: busy_blog_def travel_def hidden_def get_object_or_404_def
          CategoryListView_get_object_def)
  note lens = busy_HomePage_length busy_ProfileView_length busy_CategoryListView_length
  note nps = sizes_of_25(1) [OF busy_HomePage_length]
    sizes_of_25(1) [OF busy_ProfileView_length]
    sizes_of_25(1) [OF busy_CategoryListView_length]
  from listing_pagination [OF p99 u c, of 100 Django_4_or_later 100]
    listing_pagination [OF p3 u c, of 100 Django_4_or_later 100]
  show ?thesis
    by (simp add: lens nps u c)
qed

section \<open>Detail pages and creation\<close>

lemma filter_unique_key:
  "distinct (map f xs) \<Longrightarrow> x \<in> set xs \<Longrightarrow> filter (\<lambda>y. f y = f x) xs = [x]"
proof (induction xs)
  case Nil
  then show ?case by simp
next
  case (Cons a xs)
  show ?case
  proof (cases "a = x")
    case True
    with Cons.prems have "f x \<notin> f ` set xs" by simp
    then have "\<forall>y\<in>set xs. f y \<noteq> f x" by (metis imageI)
    then have "filter (\<lambda>y. f y = f x) xs = []" by (simp add: filter_empty_conv)
    with True show ?thesis by simp
  next
    case False
    with Cons.prems have "x \<in> set xs" "f a \<noteq> f x" by auto
    with Cons show ?thesis by simp
  qed
qed

lemma get_object_or_404_unique:
  "distinct (map f table) \<Longrightarrow> x \<in> set table \<Longrightarrow>
     get_object_or_404 table (\<lambda>y. f y = f x) = Inr x"
  by (simp add: get_object_or_404_def filter_unique_key)

lemma get_object_or_404_missing:
  "k \<notin> f ` set table \<Longrightarrow> get_object_or_404 table (\<lambda>y. f y = k) = Inl Raise_Http404"
proof -
  assume "k \<notin> f ` set table"
  then have "filter (\<lambda>y. f y = k) table = []" by (auto simp: filter_empty_conv)
  then show ?thesis by (simp add: get_object_or_404_def)
qed

text \<open>
  C7. The detail page of an unpublished category answers not-found, whoever asks: the
  lookup runs over the published categories only. (Slugs are unique, as the model
  declares.)
\<close>

theorem unpublished_category_not_found:
  assumes "c \<in> set (categories d)" and "\<not> is_published c"
    and "distinct (map slug (categories d))"
  shows "CategoryListView release now d request (slug c) = Http404"
proof -
  have "filter (\<lambda>x. is_published x \<and> slug x = slug c) (categories d) =
      filter is_published (filter (\<lambda>x. slug x = slug c) (categories d))"
    by (simp add: conj_commute)
  also have "\<dots> = filter is_published [c]"
    using assms(1,3) by (simp add: filter_unique_key)
  also have "\<dots> = []" using assms(2) by simp
  finally show ?thesis
    by (simp add: CategoryListView_def CategoryListView_get_object_def get_object_or_404_def
          error_response_def)
qed

theorem unpublished_category_not_found_witness:
  "hidden \<in> set (categories blog) \<and> \<not> is_published hidden \<and>
   distinct (map slug (categories blog)) \<and>
   CategoryListView Django_4_or_later 100 blog as_alice ''hidden'' = Http404 \<and>
   CategoryListView Django_2_or_3_0 100 blog anonymous ''hidden'' = Http404"
proof -
  have h: "hidden \<in> set (categories blog)" "\<not> is_published hidden"
    "distinct (map slug (categories blog))"
    by (simp_all add: blog_defs)
  have s: "slug hidden = ''hidden''" by (simp add: hidden_def)
  show ?thesis
    using unpublished_category_not_found [OF h, of Django_4_or_later 100 as_alice]
      unpublished_category_not_found [OF h, of Django_2_or_3_0 100 anonymous] h
    by (simp add: s)
qed

text \<open>
  C9. The detail page of a post returns the post (with its comments) for its id, whatever
  the post's published flag, publication date and category, and whoever asks; an id that
  no post has is answered with not-found.
\<close>

theorem PostDetailView_no_visibility_filter:
  "(p \<in> set (posts d) \<and> distinct (map pk (posts d)) \<longrightarrow>
      PostDetailView d request (pk p) =
        TemplateResponse
          (p, sort_key Comment.created_at (filter (\<lambda>c. posts_id c = pk p) (comments d)))) \<and>
   (post_id \<notin> pk ` set (posts d) \<longrightarrow> PostDetailView d request post_id = Http404)"
  by (simp add: PostDetailView_def get_object_or_404_unique get_object_or_404_missing
        error_response_def)

theorem PostDetailView_no_visibility_filter_witness:
  "draft \<in> set (posts blog) \<and> distinct (map pk (posts blog)) \<and> \<not> is_published draft \<and>
   PostDetailView blog anonymous 1 = TemplateResponse (draft, []) \<and>
   7 \<notin> pk ` set (posts blog) \<and> PostDetailView blog anonymous 7 = Http404"
proof -
  have h: "draft \<in> set (posts blog) \<and> distinct (map pk (posts blog))"
    by (simp add: blog_defs)
  have k: "7 \<notin> pk ` set (posts blog)" by (simp add: blog_defs)
  have e: "pk draft = 1" "filter (\<lambda>c. posts_id c = Suc 0) (comments blog) = []"
    "\<not> is_published draft"
    by (simp_all add: blog_defs)
  show ?thesis
    using PostDetailView_no_visibility_filter [of draft blog anonymous 7] h k
    by (simp add: e)
qed

lemma PostCreatView_cases:
  "PostCreatView d request =
     (case user request of
        None \<Rightarrow> (HttpResponseRedirect login, d)
      | Some u \<Rightarrow>
          (case http_method request of
             GET \<Rightarrow> (TemplateResponse Blank_form, d)
           | POST \<Rightarrow>
               (case post_form request of
                  None \<Rightarrow> (TemplateResponse Form_errors, d)
                | Some inst \<Rightarrow>
                    (HttpResponseRedirect (profile (username u)),
                     d\<lparr>posts := posts d @
                        [inst\<lparr>Post.author_id := pk u, pk := next_pk (posts d)\<rparr>]\<rparr>))))"
  by (simp add: PostCreatView_def LoginRequiredMixin_dispatch_def CreateView_def
        PostCreatView_form_valid_def Let_def split: option.splits http_method.splits)

lemma CommentCreateView_cases:
  "CommentCreateView now d request post_id =
     (case get_object_or_404 (posts d) (\<lambda>p. pk p = post_id) of
        Inl e \<Rightarrow> (error_response e, d)
      | Inr post \<Rightarrow>
         (case user request of
            None \<Rightarrow> (HttpResponseRedirect login, d)
          | Some u \<Rightarrow>
              (case http_method request of
                 GET \<Rightarrow> (TemplateResponse Blank_form, d)
               | POST \<Rightarrow>
                   (case comment_form request of
                      None \<Rightarrow> (TemplateResponse Form_errors, d)
                    | Some inst \<Rightarrow>
                        (HttpResponseRedirect (post_detail (pk post)),
                         d\<lparr>comments := comments d @
                            [inst\<lparr>Comment.author_id := pk u, posts_id := pk post,
                                  Comment.created_at := now, pk := next_pk (comments d)\<rparr>]\<rparr>)))))"
  by (simp add: CommentCreateView_def LoginRequiredMixin_dispatch_def CreateView_def
        CommentCreateView_form_valid_def Let_def
        split: option.splits http_method.splits sum.splits)

text \<open>
  C10. A request that creates a post or a comment is an authenticated POST with a valid
  form, and the row it adds has the requesting user as its author, whatever author the
  submitted form names; a new comment belongs to the post of the URL. No other request
  changes the database.
\<close>

theorem created_author_is_request_user:
  "(PostCreatView d request = (resp, d') \<longrightarrow>
      d' = d \<or>
      (\<exists>u obj. user request = Some u \<and> d' = d\<lparr>posts := posts d @ [obj]\<rparr> \<and>
         Post.author_id obj = pk u)) \<and>
   (user request = Some u \<and> http_method request = POST \<and> post_form request = Some inst \<longrightarrow>
      PostCreatView d request =
        (HttpResponseRedirect (profile (username u)),
         d\<lparr>posts := posts d @ [inst\<lparr>Post.author_id := pk u, pk := next_pk (posts d)\<rparr>]\<rparr>)) \<and>
   (CommentCreateView now d request post_id = (resp2, d2) \<longrightarrow>
      d2 = d \<or>
      (\<exists>u obj. user request = Some u \<and> d2 = d\<lparr>comments := comments d @ [obj]\<rparr> \<and>
         Comment.author_id obj = pk u \<and> posts_id obj = post_id \<and>
         post_id \<in> pk ` set (posts d))) \<and>
   (user request = Some u \<and> http_method request = POST \<and> comment_form request = Some cinst \<and>
    get_object_or_404 (posts d) (\<lambda>p. pk p = post_id) = Inr post \<longrightarrow>
      CommentCreateView now d request post_id =
        (HttpResponseRedirect (post_detail post_id),
         d\<lparr>comments := comments d @
            [cinst\<lparr>Comment.author_id := pk u, posts_id := post_id, Comment.created_at := now,
                   pk := next_pk (comments d)\<rparr>]\<rparr>))"
proof -
  have a: "d' = d \<or>
      (\<exists>u obj. user request = Some u \<and> d' = d\<lparr>posts := posts d @ [obj]\<rparr> \<and>
         Post.author_id obj = pk u)"
    if "PostCreatView d request = (resp, d')"
    using that unfolding PostCreatView_cases
    by (auto split: option.splits http_method.splits)
  have b: "PostCreatView d request =
        (HttpResponseRedirect (profile (username u)),
         d\<lparr>posts := posts d @ [inst\<lparr>Post.author_id := pk u, pk := next_pk (posts d)\<rparr>]\<rparr>)"
    if "user request = Some u \<and> http_method request = POST \<and> post_form request = Some inst"
    using that by (simp add: PostCreatView_cases)
  have c: "d2 = d \<or>
      (\<exists>u obj. user request = Some u \<and> d2 = d\<lparr>comments := comments d @ [obj]\<rparr> \<and>
         Comment.author_id obj = pk u \<and> posts_id obj = post_id \<and>
         post_id \<in> pk ` set (posts d))"
    if h: "CommentCreateView now d request post_id = (resp2, d2)"
  proof (cases "get_object_or_404 (posts d) (\<lambda>p. pk p = post_id)")
    case (Inl e)
    with h show ?thesis by (simp add: CommentCreateView_cases)
  next
    case (Inr post)
    then have "pk post = post_id \<and> post \<in> set (posts d)"
      by (rule get_object_or_404_cond)
    then have "pk post = post_id" "post_id \<in> pk ` set (posts d)" by auto
    with h Inr show ?thesis
      unfolding CommentCreateView_cases
      by (auto split: option.splits http_method.splits)
  qed
  have e: "CommentCreateView now d request post_id =
        (HttpResponseRedirect (post_detail post_id),
         d\<lparr>comments := comments d @
            [cinst\<lparr>Comment.author_id := pk u, posts_id := post_id, Comment.created_at := now,
                   pk := next_pk (comments d)\<rparr>]\<rparr>)"
    if h: "user request = Some u \<and> http_method request = POST \<and> comment_form request = Some cinst \<and>
      get_object_or_404 (posts d) (\<lambda>p. pk p = post_id) = Inr post"
  proof -
    from h have "pk post = post_id \<and> post \<in> set (posts d)"
      using get_object_or_404_cond [of "posts d" "\<lambda>p. pk p = post_id" post] by simp
    with h show ?thesis by (simp add: CommentCreateView_cases)
  qed
  from a b c e show ?thesis by blast
qed

theorem created_author_is_request_user_witness:
  "user bob_submits = Some bob \<and> http_method bob_submits = POST \<and>
   post_form bob_submits = Some (draft\<lparr>Post.title := ''Mine''\<rparr>) \<and>
   Post.author_id (draft\<lparr>Post.title := ''Mine''\<rparr>) = pk alice \<and>
   PostCreatView blog bob_submits =
     (HttpResponseRedirect (profile ''bob''),
      blog\<lparr>posts := posts blog @ [draft\<lparr>Post.title := ''Mine'', Post.author_id := 2, pk := 6\<rparr>]\<rparr>) \<and>
   comment_form bob_submits = Some (remark\<lparr>Comment.author_id := 1, posts_id := 2\<rparr>) \<and>
   get_object_or_404 (posts blog) (\<lambda>p. pk p = 4) = Inr live_post \<and>
   CommentCreateView 100 blog bob_submits 4 =
     (HttpResponseRedirect (post_detail 4),
      blog\<lparr>comments := comments blog @
        [remark\<lparr>Comment.author_id := 2, posts_id := 4, Comment.created_at := 100, pk := 2\<rparr>]\<rparr>)"
proof -
  have h: "user bob_submits = Some bob \<and> http_method bob_submits = POST \<and>
      post_form bob_submits = Some (draft\<lparr>Post.title := ''Mine''\<rparr>)"
    by (simp add: bob_submits_def)
  have h2: "user bob_submits = Some bob \<and> http_method bob_submits = POST \<and>
      comment_form bob_submits = Some (remark\<lparr>Comment.author_id := 1, posts_id := 2\<rparr>) \<and>
      get_object_or_404 (posts blog) (\<lambda>p. pk p = 4) = Inr live_post"
    by (simp add: bob_submits_def blog_defs get_object_or_404_def)
  have n: "next_pk (posts blog) = 6" "next_pk (comments blog) = 2" "pk bob = 2" "username bob = ''bob''"
    "Post.author_id draft = pk alice"
    by (simp_all add: next_pk_def blog_defs)
  show ?thesis
    using created_author_is_request_user
      [of blog bob_submits "HttpResponseRedirect (profile ''bob'')"
          "blog\<lparr>posts := posts blog @
             [draft\<lparr>Post.title := ''Mine'', Post.author_id := 2, pk := 6\<rparr>]\<rparr>"
          bob "draft\<lparr>Post.title := ''Mine''\<rparr>" 100 4 "HttpResponseRedirect (post_detail 4)"
          "blog\<lparr>comments := comments blog @
             [remark\<lparr>Comment.author_id := 2, posts_id := 4, Comment.created_at := 100, pk := 2\<rparr>]\<rparr>"
          "remark\<lparr>Comment.author_id := 1, posts_id := 2\<rparr>" live_post] h h2
    by (simp add: n)
qed

section \<open>Ordering of the listings\<close>

lemma sorted_wrt_take_drop:
  "sorted_wrt R xs \<Longrightarrow> sorted_wrt R (take n (drop m xs))"
proof -
  assume "sorted_wrt R xs"
  then have "sorted_wrt R (drop m xs)" by (simp add: sorted_wrt_drop)
  then show ?thesis by (simp add: sorted_wrt_take)
qed

lemma ordering_sorted: "sorted_wrt post_before (map fst (ordering rows))"
proof -
  let ?key = "\<lambda>(p, n :: nat). (- pub_date p, Post.title p)"
  have "sorted (map ?key (ordering rows))"
    by (simp add: ordering_def)
  then have "sorted_wrt (\<lambda>a b. ?key a \<le> ?key b) (ordering rows)"
    by (simp add: sorted_map)
  then have "sorted_wrt (\<lambda>a b. post_before (fst a) (fst b)) (ordering rows)"
    by (rule sorted_wrt_mono_rel [rotated]) (auto simp: post_before_def split: prod.splits)
  then show ?thesis by (simp add: sorted_wrt_map)
qed

lemma HomePage_get_queryset_sorted:
  "sorted_wrt post_before (map fst (HomePage_get_queryset loaded_at d))"
  by (simp add: HomePage_get_queryset_def ordering_sorted)

lemma page_sorted:
  assumes "sorted_wrt R (map f xs)" and "page xs per_page n = Inr pg"
  shows "sorted_wrt R (map f (object_list pg))"
proof -
  from assms(2) obtain a b where "object_list pg = take a (drop b xs)"
    by (auto simp: page_def Let_def split: sum.splits)
  with assms(1) show ?thesis
    by (simp add: sorted_wrt_take_drop take_map [symmetric] drop_map [symmetric])
qed

lemma HomePage_page_sorted:
  assumes "HomePage loaded_at d request = TemplateResponse pg"
  shows "sorted_wrt post_before (map fst (object_list pg))"
proof -
  from assms obtain n where "page (HomePage_get_queryset loaded_at d) OBJECTS_PER_PAGE n = Inr pg"
    by (auto simp: HomePage_def paginate_queryset_def error_response_def
          split: sum.splits query_value.splits if_splits error.splits)
  then show ?thesis
    using HomePage_get_queryset_sorted page_sorted by blast
qed

lemma Meta_ordering_sorted_Django_2_or_3_0:
  "sorted_wrt post_before (map fst (Meta_ordering Django_2_or_3_0 rows))"
  by (simp add: Meta_ordering_def ordering_sorted)

lemma ProfileView_posts_sorted_Django_2_or_3_0:
  "sorted_wrt post_before (map fst (ProfileView_posts Django_2_or_3_0 now d request u))"
  by (simp add: ProfileView_posts_def Meta_ordering_sorted_Django_2_or_3_0)

lemma CategoryListView_posts_sorted_Django_2_or_3_0:
  "sorted_wrt post_before (map fst (CategoryListView_posts Django_2_or_3_0 now d s))"
  by (simp add: CategoryListView_posts_def Meta_ordering_sorted_Django_2_or_3_0)

text \<open>
  C8 (what the code does at the failing input). On a Django release since 3.1 Alice's
  profile lists her posts in table order, oldest first: the draft of time 10 comes before
  the post of time 200. Only the homepage orders its queryset explicitly.
\<close>

theorem ProfileView_listing_not_ordered:
  "ProfileView Django_4_or_later 100 blog as_alice ''alice'' =
     TemplateResponse (alice,
       \<lparr>object_list = [(draft, 0), (uncategorised, 0), (in_hidden, 0), (live_post, 1), (scheduled, 0)],
        number = 1\<rparr>) \<and>
   ProfileView Django_3_1_or_3_2 100 blog as_alice ''alice'' =
     ProfileView Django_4_or_later 100 blog as_alice ''alice'' \<and>
   pub_date draft = 10 \<and> pub_date scheduled = 200 \<and>
   \<not> sorted_wrt post_before [draft, uncategorised, in_hidden, live_post, scheduled]"
  by (simp add: blog_defs view_defs ProfileView_def ProfileView_posts_def post_before_def)

section \<open>The author check of the edit and delete views\<close>

lemma PostEditMixin_dispatch_guard:
  assumes "get_object_or_404 (posts d) (\<lambda>p. pk p = post_id) = Inr inst"
  shows "PostEditMixin_dispatch d request post_id super =
     (if author_ne_user (Post.author_id inst) request
      then (HttpResponseRedirect (post_detail post_id), d)
      else super)"
  using assms by (simp add: PostEditMixin_dispatch_def)

lemma CommentEditMixin_dispatch_denied:
  assumes "get_object_or_404 (comments d) (\<lambda>c. pk c = comment_id) = Inr inst"
    and "author_ne_user (Comment.author_id inst) request"
  shows "CommentEditMixin_dispatch d request post_id comment_id super =
     (HttpResponseRedirect (post_detail post_id), d)"
  using assms by (simp add: CommentEditMixin_dispatch_def)

lemma CommentEditMixin_dispatch_allowed:
  assumes "get_object_or_404 (comments d) (\<lambda>c. pk c = comment_id) = Inr inst"
    and "\<not> author_ne_user (Comment.author_id inst) request"
  shows "CommentEditMixin_dispatch d request post_id comment_id super = super"
  using assms by (simp add: CommentEditMixin_dispatch_def)

text \<open>
  What the author check does in general: a request by anyone but the author is answered
  with a redirect and the database stays as it is; the author's request goes on to the
  generic view. For a post the redirect is the post's own page.
\<close>

lemma PostEditView_denied:
  assumes "get_object_or_404 (posts d) (\<lambda>p. pk p = post_id) = Inr inst"
    and "author_ne_user (Post.author_id inst) request"
  shows "PostEditView d request post_id = (HttpResponseRedirect (post_detail (pk inst)), d)"
    and "PostDeleteView release d request post_id = (HttpResponseRedirect (post_detail (pk inst)), d)"
proof -
  from assms(1) have "pk inst = post_id"
    using get_object_or_404_cond [of "posts d" "\<lambda>p. pk p = post_id" inst] by simp
  with assms show "PostEditView d request post_id = (HttpResponseRedirect (post_detail (pk inst)), d)"
    and "PostDeleteView release d request post_id = (HttpResponseRedirect (post_detail (pk inst)), d)"
    by (simp_all add: PostEditView_def PostDeleteView_def PostEditMixin_dispatch_def)
qed

lemma comment_views_denied:
  assumes "get_object_or_404 (comments d) (\<lambda>c. pk c = comment_id) = Inr inst"
    and "author_ne_user (Comment.author_id inst) request"
  shows "EditComment d request post_id comment_id = (HttpResponseRedirect (post_detail post_id), d)"
    and "CommentDeleteView release d request post_id comment_id =
           (HttpResponseRedirect (post_detail post_id), d)"
  using assms
  by (simp_all add: EditComment_def CommentDeleteView_def CommentEditMixin_dispatch_def)

lemma author_ne_user_iff:
  "\<not> author_ne_user author request \<longleftrightarrow> (\<exists>u. user request = Some u \<and> pk u = author)"
  by (auto simp: author_ne_user_def split: option.splits)

lemma PostEditView_allowed:
  assumes "get_object_or_404 (posts d) (\<lambda>p. pk p = post_id) = Inr inst"
    and "user request = Some u" and "pk u = Post.author_id inst"
  shows "PostEditView d request post_id =
     (case UpdateView (posts d) post_id (http_method request) (post_form request) get_absolute_url of
        (resp, table) \<Rightarrow> (resp, d\<lparr>posts := table\<rparr>))"
  using assms
  by (simp add: PostEditView_def PostEditMixin_dispatch_def author_ne_user_def
        LoginRequiredMixin_dispatch_def)

lemma EditComment_allowed:
  assumes "get_object_or_404 (comments d) (\<lambda>c. pk c = comment_id) = Inr inst"
    and "user request = Some u" and "pk u = Comment.author_id inst"
  shows "EditComment d request post_id comment_id =
     (case UpdateView (comments d) comment_id (http_method request) (comment_form request)
             CommentEditMixin_get_success_url of
        (resp, table) \<Rightarrow> (resp, d\<lparr>comments := table\<rparr>))"
  using assms
  by (simp add: EditComment_def CommentEditMixin_dispatch_def author_ne_user_def
        LoginRequiredMixin_dispatch_def)

text \<open>
  C5 (what the code does at the failing input). Alice posts an edit of Bob's comment, which
  is on post 4, under the URL of post 2. She is redirected, and nothing is changed, but
  the redirect goes to post 2, the post of the URL, not to the comment's post.
\<close>

theorem EditComment_redirects_to_url_post:
  "get_object_or_404 (comments blog) (\<lambda>c. pk c = 1) = Inr remark \<and>
   Comment.author_id remark = pk bob \<and> posts_id remark = 4 \<and>
   EditComment blog alice_edits 2 1 = (HttpResponseRedirect (post_detail 2), blog)"
  by (simp add: blog_defs alice_edits_def get_object_or_404_def EditComment_def
        CommentEditMixin_dispatch_def author_ne_user_def)

text \<open>
  C6 (what the code does at the failing input). Alice asks to delete Bob's comment under the
  URL of a post 999, which does not exist. The comment stays as it is; the redirect goes to
  the page of post 999 and not to the page of the comment's post.
\<close>

theorem CommentDeleteView_redirects_to_url_post:
  "posts_id remark = 4 \<and> user alice_edits = Some alice \<and> pk alice \<noteq> Comment.author_id remark \<and>
   CommentDeleteView Django_4_or_later blog alice_edits 999 1 =
     (HttpResponseRedirect (post_detail 999), blog) \<and>
   CommentDeleteView Django_3_1_or_3_2 blog (anonymous\<lparr>http_method := POST\<rparr>) 999 1 =
     (HttpResponseRedirect (post_detail 999), blog)"
  by (simp add: blog_defs alice_edits_def get_object_or_404_def CommentDeleteView_def
        CommentEditMixin_dispatch_def author_ne_user_def)

end
